theory Spec2Isabelle
  imports Complex_Main
begin

section \<open>JavaScript strings\<close>

text \<open>
  A JavaScript string is a sequence of UTF-16 code units, and \<open>length\<close> counts code units.
  A code unit is modelled as a natural number, a string as a list of them. Pattern and
  marker literals of the source are ASCII; \<open>lit\<close> turns such a literal into code units.
\<close>

type_synonym jstring = "nat list"

definition lit :: "string \<Rightarrow> jstring" where
  "lit s = map of_char s"

text \<open>
  The class \<open>\s\<close> of a regular expression, which is also the set \<open>trim()\<close> strips:
  TAB, LF, VT, FF, CR, SP, NBSP, U+1680, U+2000..U+200A, U+2028, U+2029, U+202F, U+205F,
  U+3000 and U+FEFF.
\<close>

definition isWhiteSpace :: "nat \<Rightarrow> bool" where
  "isWhiteSpace c =
     (c = 9 \<or> c = 10 \<or> c = 11 \<or> c = 12 \<or> c = 13 \<or> c = 32 \<or> c = 160 \<or> c = 5760
      \<or> (8192 \<le> c \<and> c \<le> 8202) \<or> c = 8232 \<or> c = 8233 \<or> c = 8239 \<or> c = 8287
      \<or> c = 12288 \<or> c = 65279)"

text \<open>The line terminators, which \<open>.\<close> does not match: LF, CR, U+2028, U+2029.\<close>

definition isLineTerminator :: "nat \<Rightarrow> bool" where
  "isLineTerminator c = (c = 10 \<or> c = 13 \<or> c = 8232 \<or> c = 8233)"

text \<open>\<open>String.prototype.trim\<close>: white space is dropped at both ends.\<close>

definition trim :: "jstring \<Rightarrow> jstring" where
  "trim s = rev (dropWhile isWhiteSpace (rev (dropWhile isWhiteSpace s)))"

section \<open>Regular expressions of the source\<close>

text \<open>
  With the flag \<open>i\<close> a pattern character and an input code unit match when their
  canonical forms agree. All pattern characters of the source are ASCII, and a code unit
  outside ASCII is never canonicalised into ASCII, so the comparison is on the ASCII
  upper-case forms.
\<close>

definition toUpperAscii :: "nat \<Rightarrow> nat" where
  "toUpperAscii c = (if 97 \<le> c \<and> c \<le> 122 then c - 32 else c)"

text \<open>
  \<open>starts_with i l s\<close>: the literal \<open>l\<close> matches at the front of \<open>s\<close>; \<open>i\<close> is the
  flag \<open>i\<close> of the pattern.
\<close>

fun starts_with :: "bool \<Rightarrow> jstring \<Rightarrow> jstring \<Rightarrow> bool" where
  "starts_with i [] s = True"
| "starts_with i (p # ps) [] = False"
| "starts_with i (p # ps) (c # cs) =
     ((if i then toUpperAscii p = toUpperAscii c else p = c) \<and> starts_with i ps cs)"

text \<open>
  \<open>/l/.test(s)\<close> for a literal \<open>l\<close>, and \<open>s.includes(l)\<close> when \<open>i\<close> is off: the literal
  matches at some position.
\<close>

fun search_lit :: "bool \<Rightarrow> jstring \<Rightarrow> jstring \<Rightarrow> bool" where
  "search_lit i l [] = starts_with i l []"
| "search_lit i l (c # cs) = (starts_with i l (c # cs) \<or> search_lit i l cs)"

text \<open>\<open>.*l\<close> matches at the front of the input: \<open>.\<close> takes no line terminator.\<close>

fun dot_star_then :: "bool \<Rightarrow> jstring \<Rightarrow> jstring \<Rightarrow> bool" where
  "dot_star_then i l [] = starts_with i l []"
| "dot_star_then i l (c # cs) =
     (starts_with i l (c # cs) \<or> (\<not> isLineTerminator c \<and> dot_star_then i l cs))"

text \<open>\<open>/l1.*l2/.test(s)\<close> for two literals.\<close>

fun search_gap :: "bool \<Rightarrow> jstring \<Rightarrow> jstring \<Rightarrow> jstring \<Rightarrow> bool" where
  "search_gap i l1 l2 [] = (starts_with i l1 [] \<and> dot_star_then i l2 [])"
| "search_gap i l1 l2 (c # cs) =
     ((starts_with i l1 (c # cs) \<and> dot_star_then i l2 (drop (length l1) (c # cs)))
      \<or> search_gap i l1 l2 cs)"

text \<open>
  \<open>(.+?)l\<close> at the front of the input: the lazy group takes one character, then one more
  each time the literal does not follow. The result is the group and the text after the
  match.
\<close>

fun lazy_plus_then :: "bool \<Rightarrow> jstring \<Rightarrow> jstring \<Rightarrow> (jstring \<times> jstring) option" where
  "lazy_plus_then i l [] = None"
| "lazy_plus_then i l (c # cs) =
     (if isLineTerminator c then None
      else if starts_with i l cs then Some ([c], drop (length l) cs)
      else (case lazy_plus_then i l cs of
              None \<Rightarrow> None
            | Some (g, r) \<Rightarrow> Some (c # g, r)))"

text \<open>\<open>s.match(/(.+?)l/)\<close>: the match at the leftmost position that has one.\<close>

fun search_lazy :: "bool \<Rightarrow> jstring \<Rightarrow> jstring \<Rightarrow> (jstring \<times> jstring) option" where
  "search_lazy i l [] = None"
| "search_lazy i l (c # cs) =
     (case lazy_plus_then i l (c # cs) of
        Some m \<Rightarrow> Some m
      | None \<Rightarrow> search_lazy i l cs)"

text \<open>\<open>s.replace(/^.+?l\s*/i, '')\<close>: the prefix up to the literal and the white space after it.\<close>

definition strip_prefix :: "jstring \<Rightarrow> jstring \<Rightarrow> jstring" where
  "strip_prefix l s =
     (case lazy_plus_then True l s of
        Some (g, r) \<Rightarrow> dropWhile isWhiteSpace r
      | None \<Rightarrow> s)"

text \<open>
  \<open>\s+([^\n\r]+)\<close> at the front of the input. \<open>\s+\<close> is greedy and gives white space
  back one character at a time until the group, which takes every character up to the
  next LF or CR, is not empty.
\<close>

fun ws_plus_group :: "jstring \<Rightarrow> jstring option" where
  "ws_plus_group [] = None"
| "ws_plus_group (c # cs) =
     (if \<not> isWhiteSpace c then None
      else (case ws_plus_group cs of
              Some g \<Rightarrow> Some g
            | None \<Rightarrow>
                (let g = takeWhile (\<lambda>x. x \<noteq> 10 \<and> x \<noteq> 13) cs
                 in if g = [] then None else Some g)))"

text \<open>\<open>(?:a1|a2|...)\s+([^\n\r]+)\<close> at the front, flag \<open>i\<close>: the alternatives in order.\<close>

fun alt_ws_group :: "jstring list \<Rightarrow> jstring \<Rightarrow> jstring option" where
  "alt_ws_group [] s = None"
| "alt_ws_group (a # as) s =
     (case (if starts_with True a s then ws_plus_group (drop (length a) s) else None) of
        Some g \<Rightarrow> Some g
      | None \<Rightarrow> alt_ws_group as s)"

fun search_alt_ws_group :: "jstring list \<Rightarrow> jstring \<Rightarrow> jstring option" where
  "search_alt_ws_group as [] = alt_ws_group as []"
| "search_alt_ws_group as (c # cs) =
     (case alt_ws_group as (c # cs) of
        Some g \<Rightarrow> Some g
      | None \<Rightarrow> search_alt_ws_group as cs)"

section \<open>The content sanitizer\<close>

text \<open>
  \<open>content.replace(/\s+/g, ' ')\<close>: every maximal run of white space becomes one space.
\<close>

function collapse_ws :: "jstring \<Rightarrow> jstring" where
  "collapse_ws [] = []"
| "collapse_ws (c # cs) =
     (if isWhiteSpace c then 32 # collapse_ws (dropWhile isWhiteSpace cs)
      else c # collapse_ws cs)"
  by pat_completeness auto
termination
  by (relation "measure length") (auto simp: less_Suc_eq_le length_dropWhile_le)

text \<open>
  The match of \<open>\s*\n\<close> right after a line feed: \<open>\s*\<close> is greedy and gives characters
  back one at a time, so the match ends at the last line feed of the white-space run.
  The result is the text after the match, \<open>None\<close> when the run holds no line feed.
\<close>

fun after_last_nl :: "jstring \<Rightarrow> jstring option" where
  "after_last_nl [] = None"
| "after_last_nl (c # cs) =
     (if \<not> isWhiteSpace c then None
      else (case after_last_nl cs of
              Some r \<Rightarrow> Some r
            | None \<Rightarrow> if c = 10 then Some cs else None))"

lemma after_last_nl_length: "after_last_nl cs = Some r \<Longrightarrow> length r \<le> length cs"
  by (induction cs arbitrary: r) (auto split: if_splits option.splits simp: le_Suc_eq)

text \<open>\<open>.replace(/\n\s*\n/g, '\n')\<close>: the matches are replaced from left to right.\<close>

function collapse_nl :: "jstring \<Rightarrow> jstring" where
  "collapse_nl [] = []"
| "collapse_nl (c # cs) =
     (if c = 10 then
        (case after_last_nl cs of
           Some r \<Rightarrow> 10 # collapse_nl r
         | None \<Rightarrow> 10 # collapse_nl cs)
      else c # collapse_nl cs)"
  by pat_completeness auto
termination
  by (relation "measure length") (auto simp: less_Suc_eq_le dest: after_last_nl_length)

definition cleanContent :: "jstring \<Rightarrow> jstring" where
  "cleanContent content = trim (collapse_nl (collapse_ws content))"

text \<open>
  The normal form the first replacement produces: a white-space character is a space and
  the character after it, if any, is not white space.
\<close>

fun single_spaced :: "jstring \<Rightarrow> bool" where
  "single_spaced [] = True"
| "single_spaced (c # cs) =
     (if isWhiteSpace c
      then c = 32 \<and> (case cs of [] \<Rightarrow> True | d # _ \<Rightarrow> \<not> isWhiteSpace d) \<and> single_spaced cs
      else single_spaced cs)"

section \<open>The parsed document\<close>

text \<open>
  The source queries the e-mail body through the cheerio library, which is not part of the
  repository. A parsed document is therefore a parameter of the model, given by what each
  query of the source returns:
  \<^item> \<open>dom_select d sel\<close>: the texts of the elements \<open>$(sel)\<close> matches, in document order
    (\<open>.length\<close> is the length of the list, \<open>.first().text()\<close> its head);
  \<^item> \<open>dom_text d\<close>: the string \<open>$.text()\<close>;
  \<^item> \<open>dom_img d\<close>: the attributes \<open>src\<close> and \<open>alt\<close> of the elements \<open>$('img')\<close> visits,
    in the order of the visit, \<open>None\<close> for a missing attribute;
  \<^item> \<open>dom_a d\<close>: the attribute \<open>href\<close> and the text of the elements \<open>$('a')\<close> visits.
\<close>

record dom =
  dom_select :: "string \<Rightarrow> jstring list"
  dom_text :: jstring
  dom_img :: "(jstring option \<times> jstring option) list"
  dom_a :: "(jstring option \<times> jstring) list"

section \<open>FacebookParser: predicates on lines\<close>

text \<open>\<open>isPostContent\<close>: none of the five system patterns matches the text.\<close>

definition isPostContent :: "jstring \<Rightarrow> bool" where
  "isPostContent t =
     (let systemPatterns =
        [\<lambda>x. list_ex (\<lambda>l. starts_with True (lit l) x)
               [''To help keep'', ''You're receiving'', ''This message was sent'',
                ''Facebook'', ''Copyright'', ''Privacy'', ''Terms''],
         \<lambda>x. list_ex (\<lambda>l. starts_with True (lit l) x)
               [''View'', ''Reply'', ''Like'', ''Comment'', ''Share'', ''Unsubscribe''],
         \<lambda>x. list_ex (\<lambda>l. starts_with True (lit l) x) [''http'', ''www.''],
         \<lambda>x. x \<noteq> [] \<and>
              list_all (\<lambda>c. (48 \<le> c \<and> c \<le> 57) \<or> isWhiteSpace c \<or> c = 45 \<or> c = 58) x,
         \<lambda>x. length x \<le> 5 \<and> list_all (\<lambda>c. \<not> isLineTerminator c) x]
      in \<not> list_ex (\<lambda>pattern. pattern t) systemPatterns)"

text \<open>\<open>isSystemMessage\<close>: one of the six phrases occurs in the text, in any case.\<close>

definition isSystemMessage :: "jstring \<Rightarrow> bool" where
  "isSystemMessage t =
     (let systemPatterns =
        [''facebook.com'', ''unsubscribe'', ''privacy policy'', ''terms of service'',
         ''help center'', ''view on facebook'']
      in list_ex (\<lambda>pattern. search_lit True (lit pattern) t) systemPatterns)"

section \<open>FacebookParser: extractContent\<close>

definition selectors :: "string list" where
  \<open>selectors =
     [''[data-testid="post_message"]'', ''.post-content'', ''.message'', ''.post-text'',
      ''.userContent'', ''p:contains("wrote:")'', ''div:contains("wrote:")'']\<close>

text \<open>The three prefix replacements applied to the trimmed text of the first element.\<close>

definition strip_prefixes :: "jstring \<Rightarrow> jstring" where
  "strip_prefixes content =
     strip_prefix (lit ''posted:'') (strip_prefix (lit ''said:'') (strip_prefix (lit ''wrote:'') content))"

text \<open>The loop over the selectors: it returns at the first text longer than 10.\<close>

fun selector_loop :: "dom \<Rightarrow> string list \<Rightarrow> jstring option" where
  "selector_loop d [] = None"
| "selector_loop d (selector # rest) =
     (let elements = dom_select d selector in
      if length elements > 0 then
        (let content = strip_prefixes (trim (hd elements)) in
         if length content > 10 then Some (cleanContent content)
         else selector_loop d rest)
      else selector_loop d rest)"

text \<open>\<open>fullText.split('\n')\<close>\<close>

fun split_nl :: "jstring \<Rightarrow> jstring list" where
  "split_nl [] = [[]]"
| "split_nl (c # cs) =
     (if c = 10 then [] # split_nl cs
      else (case split_nl cs of
              [] \<Rightarrow> [[c]]
            | l # ls \<Rightarrow> (c # l) # ls))"

text \<open>
  The inner loop \<open>for (j = i + 1; j < Math.min(i + 5, lines.length); j++)\<close>: \<open>n\<close> counts
  the iterations that \<open>i + 5\<close> still allows, the list holds the lines from index \<open>j\<close> on.
\<close>

fun absorb :: "nat \<Rightarrow> jstring \<Rightarrow> jstring list \<Rightarrow> jstring" where
  "absorb 0 content ls = content"
| "absorb (Suc n) content [] = content"
| "absorb (Suc n) content (l # ls) =
     (let nextLine = trim l in
      if isPostContent nextLine \<and> \<not> isSystemMessage nextLine
      then absorb n (content @ [10] @ nextLine) ls
      else content)"

text \<open>The outer loop over the non-blank lines, from index \<open>i\<close> on.\<close>

fun scan_lines :: "jstring list \<Rightarrow> jstring option" where
  "scan_lines [] = None"
| "scan_lines (l # ls) =
     (let line = trim l in
      if isPostContent line then
        (let content = absorb 4 line ls in
         if length content > 20 then Some (cleanContent content)
         else scan_lines ls)
      else scan_lines ls)"

definition fallback :: "dom \<Rightarrow> jstring option" where
  "fallback d =
     (let fullText = dom_text d;
          lines = filter (\<lambda>line. length (trim line) > 0) (split_nl fullText)
      in scan_lines lines)"

definition extractContent :: "dom \<Rightarrow> jstring option" where
  "extractContent d =
     (case selector_loop d selectors of
        Some content \<Rightarrow> Some content
      | None \<Rightarrow> fallback d)"

section \<open>FacebookParser: extractAuthor and extractPostType\<close>

definition authorPatterns :: "jstring list" where
  "authorPatterns =
     [lit '' posted in'', lit '' shared a post'', lit '' added a new photo'',
      lit '' updated their status'', lit '' wrote a new post'']"

fun author_loop :: "jstring list \<Rightarrow> jstring \<Rightarrow> jstring option" where
  "author_loop [] subject = None"
| "author_loop (pattern # rest) subject =
     (case search_lazy False pattern subject of
        Some (g, r) \<Rightarrow> Some (trim g)
      | None \<Rightarrow> author_loop rest subject)"

definition extractAuthor :: "jstring \<Rightarrow> dom \<Rightarrow> jstring option" where
  \<open>extractAuthor subject d =
     (case author_loop authorPatterns subject of
        Some a \<Rightarrow> Some a
      | None \<Rightarrow>
          (let authorElements =
                 dom_select d ''[data-testid="post_author"], .author, .post-author'' in
           if length authorElements > 0 then Some (trim (hd authorElements))
           else (case search_alt_ws_group [lit ''Posted by'', lit ''From'', lit ''By'']
                        (dom_text d) of
                   Some g \<Rightarrow> Some (trim g)
                 | None \<Rightarrow> None)))\<close>

text \<open>The seven patterns of \<open>typePatterns\<close>, all with the flag \<open>i\<close>.\<close>

definition photo_re :: "jstring \<Rightarrow> bool" where
  "photo_re s =
     (search_lit True (lit ''added a new photo'') s \<or> search_lit True (lit ''posted a photo'') s
      \<or> search_gap True (lit ''shared '') (lit ''photo'') s)"

definition status_re :: "jstring \<Rightarrow> bool" where
  "status_re s =
     (search_lit True (lit ''updated their status'') s
      \<or> search_lit True (lit ''wrote on their timeline'') s)"

definition shared_re :: "jstring \<Rightarrow> bool" where
  "shared_re s =
     (search_lit True (lit ''shared a post'') s \<or> search_gap True (lit ''shared '') (lit ''link'') s
      \<or> search_lit True (lit ''shared a video'') s)"

definition video_re :: "jstring \<Rightarrow> bool" where
  "video_re s =
     (search_lit True (lit ''posted a video'') s \<or> search_lit True (lit ''shared a video'') s)"

definition link_re :: "jstring \<Rightarrow> bool" where
  "link_re s =
     (search_lit True (lit ''shared a link'') s \<or> search_lit True (lit ''posted a link'') s)"

definition group_re :: "jstring \<Rightarrow> bool" where
  "group_re s = search_gap True (lit ''posted in '') (lit ''group'') s"

definition page_re :: "jstring \<Rightarrow> bool" where
  "page_re s = search_gap True (lit ''posted on '') (lit ''page'') s"

text \<open>
  \<open>Object.entries(typePatterns)\<close> lists the entries in the order the object literal
  declares them (none of the keys is an integer index).
\<close>

definition typePatterns :: "(string \<times> (jstring \<Rightarrow> bool)) list" where
  "typePatterns =
     [(''photo'', photo_re), (''status'', status_re), (''shared'', shared_re),
      (''video'', video_re), (''link'', link_re), (''group'', group_re), (''page'', page_re)]"

fun type_loop :: "(string \<times> (jstring \<Rightarrow> bool)) list \<Rightarrow> jstring \<Rightarrow> string option" where
  "type_loop [] subject = None"
| "type_loop ((type, pattern) # rest) subject =
     (if pattern subject then Some type else type_loop rest subject)"

definition extractPostType :: "jstring \<Rightarrow> string" where
  "extractPostType subject =
     (case type_loop typePatterns subject of
        Some type \<Rightarrow> type
      | None \<Rightarrow> ''post'')"

section \<open>FacebookParser: extractImages and extractLinks\<close>

record image =
  url :: jstring
  alt :: jstring

record link =
  link_url :: jstring
  link_text :: jstring

text \<open>
  The callback of \<open>$('img').each\<close>, run on the elements in turn; \<open>images\<close> is the array
  that \<open>push\<close> extends. A missing attribute is \<open>undefined\<close>: \<open>src &&\<close> then fails, as it does
  for the empty string, and \<open>attr('alt') || ''\<close> is the empty string.
\<close>

fun each_img :: "image list \<Rightarrow> (jstring option \<times> jstring option) list \<Rightarrow> image list" where
  "each_img images [] = images"
| "each_img images ((src, alt_attr) # elems) =
     (let alt = (case alt_attr of Some a \<Rightarrow> a | None \<Rightarrow> []) in
      case src of
        None \<Rightarrow> each_img images elems
      | Some u \<Rightarrow>
          if u \<noteq> [] \<and> \<not> search_lit False (lit ''facebook.com/tr/'') u
               \<and> \<not> search_lit False (lit ''pixel'') u
          then each_img (images @ [\<lparr>url = u, alt = alt\<rparr>]) elems
          else each_img images elems)"

definition extractImages :: "dom \<Rightarrow> image list" where
  "extractImages d = each_img [] (dom_img d)"

fun each_a :: "link list \<Rightarrow> (jstring option \<times> jstring) list \<Rightarrow> link list" where
  "each_a links [] = links"
| "each_a links ((href, t) # elems) =
     (let text = trim t in
      case href of
        None \<Rightarrow> each_a links elems
      | Some u \<Rightarrow>
          if u \<noteq> [] \<and> \<not> search_lit False (lit ''facebook.com/help'') u
               \<and> \<not> search_lit False (lit ''unsubscribe'') u
          then each_a (links @ [\<lparr>link_url = u, link_text = text\<rparr>]) elems
          else each_a links elems)"

definition extractLinks :: "dom \<Rightarrow> link list" where
  "extractLinks d = each_a [] (dom_a d)"

section \<open>FacebookParser: parseDate and extractPostData\<close>

text \<open>
  What the source takes from its environment: the parser \<open>cheerio.load\<close>, the time value
  \<open>new Date(s)\<close> holds (\<open>None\<close> for an invalid date), the clock read by \<open>new Date()\<close>, and
  the rendering of a time value by \<open>toISOString\<close>.
\<close>

record env =
  load :: "jstring \<Rightarrow> dom"
  time_value :: "jstring \<Rightarrow> int option"
  now :: int
  iso :: "int \<Rightarrow> jstring"

datatype error = RangeError | TypeError

text \<open>\<open>Date.prototype.toISOString\<close> throws a RangeError on an invalid date.\<close>

definition toISOString :: "env \<Rightarrow> int option \<Rightarrow> error + jstring" where
  "toISOString e t = (case t of None \<Rightarrow> Inl RangeError | Some v \<Rightarrow> Inr (iso e v))"

text \<open>\<open>parseDate\<close>: the \<open>catch\<close> branch renders the current time.\<close>

definition parseDate :: "env \<Rightarrow> jstring \<Rightarrow> error + jstring" where
  "parseDate e dateString =
     (case toISOString e (time_value e dateString) of
        Inr r \<Rightarrow> Inr r
      | Inl err \<Rightarrow> toISOString e (Some (now e)))"

record email =
  email_subject :: jstring
  email_from :: jstring
  email_body :: jstring
  email_date :: jstring

record originalEmail =
  orig_subject :: jstring
  orig_from :: jstring
  orig_date :: jstring

text \<open>
  \<open>postData\<close> as the object literal builds it: \<open>author\<close> and \<open>content\<close> are \<open>null\<close> when the
  extraction found nothing.
\<close>

record postData =
  author :: "jstring option"
  content :: "jstring option"
  postType :: string
  date :: jstring
  images :: "image list"
  links :: "link list"
  originalEmail :: originalEmail

text \<open>\<open>!v\<close> for a value that is \<open>null\<close> or a string.\<close>

definition falsy :: "jstring option \<Rightarrow> bool" where
  "falsy v = (v = None \<or> v = Some [])"

text \<open>
  \<open>extractPostData\<close>. An exception inside \<open>try\<close> is caught and the result is \<open>null\<close>;
  \<open>None\<close> is \<open>null\<close>.
\<close>

definition extractPostData :: "env \<Rightarrow> email \<Rightarrow> postData option" where
  "extractPostData e m =
     (let d = load e (email_body m) in
      case parseDate e (email_date m) of
        Inl err \<Rightarrow> None
      | Inr dt \<Rightarrow>
          (let postData =
                 \<lparr>author = extractAuthor (email_subject m) d,
                  content = extractContent d,
                  postType = extractPostType (email_subject m),
                  date = dt,
                  images = extractImages d,
                  links = extractLinks d,
                  originalEmail =
                    \<lparr>orig_subject = email_subject m, orig_from = email_from m,
                     orig_date = email_date m\<rparr>\<rparr>
           in if falsy (author postData) \<or> falsy (content postData) then None
              else Some postData))"

section \<open>The importance scores\<close>

text \<open>
  \<open>FacebookParser.calculateImportance\<close>. The score is a JavaScript number; every value it
  takes here is a small integer. \<open>postData.content.length\<close> throws a TypeError when the
  content is \<open>null\<close>.
\<close>

definition calculateImportance :: "postData \<Rightarrow> error + rat" where
  "calculateImportance p =
     (case content p of
        None \<Rightarrow> Inl TypeError
      | Some c \<Rightarrow>
          (let score = 0;
               score = (if length c > 100 then score + 2 else score);
               score = (if length c > 300 then score + 3 else score);
               score = (if postType p \<in> set [''photo'', ''video''] then score + 2 else score);
               score = (if postType p = ''shared'' then score + 1 else score);
               score = (if length (images p) > 0 then score + 2 else score);
               score = (if length (links p) > 0 then score + 1 else score)
           in Inr score))"

text \<open>
  \<open>BlogGenerator.calculateImportance\<close>, the function of the same name that the generator
  calls on the record. \<open>typeScores[t] || 1\<close> is 1 for a tag the table does not list. The
  lookup is modelled for the tags \<open>postTypes\<close> that \<open>extractPostType\<close> returns; a name
  that every JavaScript object inherits, such as \<open>constructor\<close>, is outside the model. Sums
  of integers and halves of this size are exact in a JavaScript number.
\<close>

definition postTypes :: "string list" where
  "postTypes =
     [''photo'', ''status'', ''shared'', ''video'', ''link'', ''group'', ''page'', ''post'']"

definition typeScores :: "(string \<times> rat) list" where
  "typeScores =
     [(''photo'', 2), (''video'', 3), (''shared'', 1), (''link'', 1), (''status'', 1),
      (''group'', 2), (''post'', 1)]"

definition typeScore :: "string \<Rightarrow> rat" where
  "typeScore t = (case map_of typeScores t of Some v \<Rightarrow> if v = 0 then 1 else v | None \<Rightarrow> 1)"

definition BlogGenerator_calculateImportance :: "postData \<Rightarrow> error + rat" where
  "BlogGenerator_calculateImportance p =
     (case content p of
        None \<Rightarrow> Inl TypeError
      | Some c \<Rightarrow>
          (let score = 0;
               score = (if length c > 100 then score + 1 else score);
               score = (if length c > 300 then score + 2 else score);
               score = (if length c > 500 then score + 3 else score);
               score = score + typeScore (postType p);
               score = score + of_nat (length (images p));
               score = score + of_nat (length (links p)) * (1 / 2)
           in Inr (min score 10)))"

text \<open>
  The score as the specification words it: three content-length buckets that add up
  independently, a weight per category, one unit per image, one half per link, and the sum
  clamped to 10. The specification leaves the bucket values \<open>b1\<close>, \<open>b2\<close>, \<open>b3\<close> and the
  weight table \<open>w\<close> open.
\<close>

definition spec_importance ::
  "rat \<Rightarrow> rat \<Rightarrow> rat \<Rightarrow> (string \<Rightarrow> rat) \<Rightarrow> nat \<Rightarrow> string \<Rightarrow> nat \<Rightarrow> nat \<Rightarrow> rat" where
  "spec_importance b1 b2 b3 w len category n_images n_links =
     min 10
       ((if len > 100 then b1 else 0) + (if len > 300 then b2 else 0)
        + (if len > 500 then b3 else 0) + w category + of_nat n_images + of_nat n_links / 2)"

section \<open>Sample inputs\<close>

text \<open>
  An environment that parses \<open>0\<close> as the epoch and nothing else, at the current time
  86400000, and whose parser takes the body for a text without elements.
\<close>

definition clock_env :: env where
  "clock_env =
     \<lparr>load = (\<lambda>b. \<lparr>dom_select = (\<lambda>sel. []), dom_text = b, dom_img = [], dom_a = []\<rparr>),
      time_value = (\<lambda>s. if s = lit ''0'' then Some 0 else None),
      now = 86400000,
      iso = (\<lambda>t. if t = 0 then lit ''1970-01-01T00:00:00.000Z''
                   else lit ''1970-01-02T00:00:00.000Z'')\<rparr>"

text \<open>A record with a content of \<open>len\<close> characters, \<open>n_images\<close> images and \<open>n_links\<close> links.\<close>

definition sample_post :: "nat \<Rightarrow> string \<Rightarrow> nat \<Rightarrow> nat \<Rightarrow> postData" where
  "sample_post len t n_images n_links =
     \<lparr>author = Some (lit ''Jane Doe''), content = Some (replicate len 97), postType = t,
      date = lit ''1970-01-01T00:00:00.000Z'',
      images = replicate n_images \<lparr>url = lit ''a.png'', alt = []\<rparr>,
      links = replicate n_links \<lparr>link_url = lit ''b.html'', link_text = []\<rparr>,
      originalEmail = \<lparr>orig_subject = [], orig_from = [], orig_date = []\<rparr>\<rparr>"

text \<open>
  A document with one element marked as the post message, the environment whose parser
  returns it, and two e-mails: a group notification and a digest without a post.
\<close>

definition novel_dom :: dom where
  \<open>novel_dom =
     \<lparr>dom_select = (\<lambda>sel. if sel = ''[data-testid="post_message"]''
                           then [lit ''Just finished reading this amazing novel!''] else []),
      dom_text = lit ''Just finished reading this amazing novel!'',
      dom_img = [], dom_a = []\<rparr>\<close>

definition novel_env :: env where
  "novel_env = clock_env\<lparr>load := (\<lambda>b. novel_dom)\<rparr>"

definition jane_mail :: email where
  "jane_mail =
     \<lparr>email_subject = lit ''Jane Doe posted in Book Club group'',
      email_from = lit ''notification@facebookmail.com'',
      email_body = lit ''<div data-testid=post_message>Just finished reading this amazing novel!</div>'',
      email_date = lit ''0''\<rparr>"

definition digest_mail :: email where
  "digest_mail =
     \<lparr>email_subject = lit ''Your weekly digest'',
      email_from = lit ''notification@facebookmail.com'',
      email_body = lit ''Privacy'',
      email_date = lit ''0''\<rparr>"

text \<open>
  Documents for the selector cascade: a first selector whose text is short after the
  prefix is stripped, followed or not by a selector with a longer text; a text of two
  words ten spaces apart.
\<close>

definition short_dom :: dom where
  \<open>short_dom =
     \<lparr>dom_select = (\<lambda>sel. if sel = ''[data-testid="post_message"]'' then [lit ''Jane wrote: Hi all'']
                           else if sel = ''.message'' then [lit ''A longer message body here'']
                           else []),
      dom_text = lit ''Jane wrote: Hi all'',
      dom_img = [], dom_a = []\<rparr>\<close>

definition tiny_dom :: dom where
  \<open>tiny_dom =
     \<lparr>dom_select = (\<lambda>sel. if sel = ''[data-testid="post_message"]'' then [lit ''Hi all''] else []),
      dom_text = lit ''Hi all'',
      dom_img = [], dom_a = []\<rparr>\<close>

definition text_dom :: "jstring \<Rightarrow> dom" where
  "text_dom t = \<lparr>dom_select = (\<lambda>sel. []), dom_text = t, dom_img = [], dom_a = []\<rparr>"

definition spaced_dom :: dom where
  \<open>spaced_dom =
     \<lparr>dom_select = (\<lambda>sel. if sel = ''[data-testid="post_message"]''
                           then [lit ''a          b''] else []),
      dom_text = [], dom_img = [], dom_a = []\<rparr>\<close>

text \<open>
  Two bodies of two boilerplate lines, three lines of a post and a footer; the lines of the
  second post have six characters each.
\<close>

definition club_text :: jstring where
  "club_text =
     lit ''Facebook'' @ [10] @ lit ''Privacy settings'' @ [10] @ [10]
     @ lit ''  Hello everyone!'' @ [13, 10] @ lit ''We met at the lake.'' @ [10]
     @ lit ''See you soon.'' @ [10] @ lit ''To unsubscribe click here''"

definition terse_text :: jstring where
  "terse_text =
     lit ''Facebook'' @ [10] @ lit ''Privacy'' @ [10] @ lit ''Hello!'' @ [10] @ lit ''World!''
     @ [10] @ lit ''Great!'' @ [10] @ lit ''Unsubscribe''"

section \<open>Properties of the sanitizer\<close>

lemma isWhiteSpace_10: "isWhiteSpace 10"
  by (simp add: isWhiteSpace_def)

lemma isWhiteSpace_32: "isWhiteSpace 32"
  by (simp add: isWhiteSpace_def)

lemma dropWhile_ws_head:
  "dropWhile isWhiteSpace cs = d # ds \<Longrightarrow> \<not> isWhiteSpace d"
  using hd_dropWhile [of isWhiteSpace cs] by auto

lemma collapse_ws_single_spaced: "single_spaced (collapse_ws s)"
proof (induction s rule: collapse_ws.induct)
  case 1
  show ?case by simp
next
  case (2 c cs)
  show ?case
  proof (cases "isWhiteSpace c")
    case True
    have tail: "single_spaced (collapse_ws (dropWhile isWhiteSpace cs))"
      using "2.IH"(1) [OF True] .
    have front: "case collapse_ws (dropWhile isWhiteSpace cs) of
                   [] \<Rightarrow> True | d # _ \<Rightarrow> \<not> isWhiteSpace d"
    proof (cases "dropWhile isWhiteSpace cs")
      case Nil
      then have "collapse_ws (dropWhile isWhiteSpace cs) = []"
        by (simp only: collapse_ws.simps)
      then show ?thesis by (simp only: list.case)
    next
      case (Cons d ds)
      then have "\<not> isWhiteSpace d" by (rule dropWhile_ws_head)
      with Cons show ?thesis by simp
    qed
    from True tail front show ?thesis by (simp add: isWhiteSpace_32)
  next
    case False
    with "2.IH"(2) show ?thesis by simp
  qed
qed

lemma collapse_ws_no_nl: "10 \<notin> set (collapse_ws s)"
proof (induction s rule: collapse_ws.induct)
  case 1
  show ?case by simp
next
  case (2 c cs)
  then show ?case by (cases "isWhiteSpace c") (auto simp: isWhiteSpace_10)
qed

lemma single_spaced_fixed: "single_spaced s \<Longrightarrow> collapse_ws s = s"
proof (induction s)
  case Nil
  show ?case by simp
next
  case (Cons c cs)
  show ?case
  proof (cases "isWhiteSpace c")
    case True
    with Cons.prems have c: "c = 32" and tl: "single_spaced cs"
      and nx: "case cs of [] \<Rightarrow> True | d # _ \<Rightarrow> \<not> isWhiteSpace d"
      by simp_all
    from nx have "dropWhile isWhiteSpace cs = cs" by (cases cs) simp_all
    with True c Cons.IH [OF tl] show ?thesis by simp
  next
    case False
    with Cons show ?thesis by simp
  qed
qed

lemma single_spaced_tl: "single_spaced (c # cs) \<Longrightarrow> single_spaced cs"
  by (simp split: if_splits)

lemma single_spaced_dropWhile: "single_spaced s \<Longrightarrow> single_spaced (dropWhile P s)"
  by (induction s) (auto dest: single_spaced_tl simp del: single_spaced.simps(2))

lemma single_spaced_prefix: "single_spaced (xs @ ys) \<Longrightarrow> single_spaced xs"
proof (induction xs)
  case Nil
  show ?case by simp
next
  case (Cons c cs)
  then show ?case by (cases cs) (auto split: if_splits)
qed

lemma rev_dropWhile_rev_prefix: "\<exists>ys. s = rev (dropWhile P (rev s)) @ ys"
proof -
  have "rev s = takeWhile P (rev s) @ dropWhile P (rev s)" by simp
  then have "rev (rev s) = rev (dropWhile P (rev s)) @ rev (takeWhile P (rev s))"
    by (metis rev_append)
  then show ?thesis by auto
qed

lemma single_spaced_trim: "single_spaced s \<Longrightarrow> single_spaced (trim s)"
proof -
  assume "single_spaced s"
  then have a: "single_spaced (dropWhile isWhiteSpace s)" by (rule single_spaced_dropWhile)
  obtain ys where "dropWhile isWhiteSpace s =
      rev (dropWhile isWhiteSpace (rev (dropWhile isWhiteSpace s))) @ ys"
    using rev_dropWhile_rev_prefix by blast
  with a have "single_spaced (rev (dropWhile isWhiteSpace (rev (dropWhile isWhiteSpace s))))"
    by (metis single_spaced_prefix)
  then show ?thesis by (simp add: trim_def)
qed

lemma dropWhile_id: "(xs = [] \<or> \<not> P (hd xs)) \<Longrightarrow> dropWhile P xs = xs"
  by (cases xs) auto

lemma trim_ends:
  "trim s = [] \<or> (\<not> isWhiteSpace (hd (trim s)) \<and> \<not> isWhiteSpace (last (trim s)))"
proof -
  define a where "a = dropWhile isWhiteSpace s"
  define b where "b = dropWhile isWhiteSpace (rev a)"
  have t: "trim s = rev b" by (simp add: trim_def a_def b_def)
  show ?thesis
  proof (cases "b = []")
    case True
    with t show ?thesis by simp
  next
    case False
    have hb: "\<not> isWhiteSpace (hd b)"
      using False hd_dropWhile [of isWhiteSpace "rev a"] by (simp add: b_def)
    have "rev a = takeWhile isWhiteSpace (rev a) @ b" by (simp add: b_def)
    then have "last (rev a) = last b" using False by (metis last_appendR)
    moreover have "a \<noteq> []" using False by (auto simp: b_def)
    ultimately have "last b = hd a" by (simp add: last_rev)
    moreover have "\<not> isWhiteSpace (hd a)"
      using \<open>a \<noteq> []\<close> hd_dropWhile [of isWhiteSpace s] by (simp add: a_def)
    ultimately have "\<not> isWhiteSpace (last b)" by simp
    with hb False t show ?thesis by (simp add: hd_rev last_rev)
  qed
qed

lemma trim_fixed:
  assumes "s = [] \<or> (\<not> isWhiteSpace (hd s) \<and> \<not> isWhiteSpace (last s))"
  shows "trim s = s"
proof (cases "s = []")
  case True
  then show ?thesis by (simp add: trim_def)
next
  case False
  with assms have h: "\<not> isWhiteSpace (hd s)" and l: "\<not> isWhiteSpace (last s)" by auto
  have 1: "dropWhile isWhiteSpace s = s" using h by (intro dropWhile_id) simp
  have 2: "dropWhile isWhiteSpace (rev s) = rev s"
    using l False by (intro dropWhile_id) (simp add: hd_rev)
  show ?thesis by (simp add: trim_def 1 2)
qed

lemma trim_idem: "trim (trim s) = trim s"
  using trim_ends [of s] by (rule trim_fixed)

lemma collapse_nl_fixed: "10 \<notin> set s \<Longrightarrow> collapse_nl s = s"
  by (induction s) auto

lemma cleanContent_eq: "cleanContent x = trim (collapse_ws x)"
  by (simp add: cleanContent_def collapse_nl_fixed collapse_ws_no_nl)

lemma cleanContent_single_spaced: "single_spaced (cleanContent x)"
  by (simp add: cleanContent_eq single_spaced_trim collapse_ws_single_spaced)

text \<open>
  Claim C7. The sanitizer is idempotent: sanitizing a sanitized text changes nothing,
  for every string of code units.
\<close>

theorem cleanContent_idempotent: "cleanContent (cleanContent x) = cleanContent x"
proof -
  have "collapse_ws (cleanContent x) = cleanContent x"
    using cleanContent_single_spaced by (rule single_spaced_fixed)
  then have "cleanContent (cleanContent x) = trim (cleanContent x)"
    by (simp add: cleanContent_eq [of "cleanContent x"])
  also have "\<dots> = cleanContent x"
    by (simp add: cleanContent_eq trim_idem)
  finally show ?thesis .
qed

section \<open>The subject classifier\<close>

lemmas re_defs = photo_re_def status_re_def shared_re_def video_re_def link_re_def group_re_def page_re_def
lemmas ev = lit_def toUpperAscii_def isLineTerminator_def isWhiteSpace_def

lemma type_loop_first:
  "list_all (\<lambda>(t', p'). \<not> p' s) pre \<Longrightarrow> p s \<Longrightarrow> type_loop (pre @ (t, p) # post) s = Some t"
  by (induction pre) auto

lemma type_loop_none:
  "list_all (\<lambda>(t, p). \<not> p s) ps \<Longrightarrow> type_loop ps s = None"
  by (induction ps) auto

lemma extractPostType_chain:
  "extractPostType s =
     (if photo_re s then ''photo'' else if status_re s then ''status''
      else if shared_re s then ''shared'' else if video_re s then ''video''
      else if link_re s then ''link'' else if group_re s then ''group''
      else if page_re s then ''page'' else ''post'')"
  by (simp add: extractPostType_def typePatterns_def)

text \<open>
  Claim C2, amended. The patterns are tried in the order photo, status, shared, video,
  link, group, page; the tag of the first pattern that matches the subject is returned,
  and \<open>''post''\<close> when none matches, so the result is always one of the eight tags. A
  subject that matches the shared and the video pattern is classified \<open>''shared''\<close> when
  it matches neither the photo nor the status pattern, which come first.
\<close>

theorem extractPostType_first_match:
  "map fst typePatterns = [''photo'', ''status'', ''shared'', ''video'', ''link'', ''group'', ''page'']
   \<and> (\<forall>pre t p post. typePatterns = pre @ (t, p) # post \<and> list_all (\<lambda>(t', p'). \<not> p' s) pre \<and> p s
          \<longrightarrow> extractPostType s = t)
   \<and> (list_all (\<lambda>(t, p). \<not> p s) typePatterns \<longrightarrow> extractPostType s = ''post'')
   \<and> extractPostType s \<in> set [''photo'', ''status'', ''shared'', ''video'', ''link'', ''group'', ''page'', ''post'']
   \<and> (shared_re s \<and> video_re s \<and> \<not> photo_re s \<and> \<not> status_re s \<longrightarrow> extractPostType s = ''shared'')
   \<and> (search_lit True (lit ''shared a video'') s \<and> \<not> photo_re s \<and> \<not> status_re s
          \<longrightarrow> extractPostType s = ''shared'')"
proof (intro conjI)
  show "map fst typePatterns = [''photo'', ''status'', ''shared'', ''video'', ''link'', ''group'', ''page'']"
    by (simp add: typePatterns_def)
  show "\<forall>pre t p post. typePatterns = pre @ (t, p) # post \<and> list_all (\<lambda>(t', p'). \<not> p' s) pre \<and> p s
          \<longrightarrow> extractPostType s = t"
  proof (intro allI impI, elim conjE)
    fix pre t p post
    assume eq: "typePatterns = pre @ (t, p) # post"
      and a: "list_all (\<lambda>(t', p'). \<not> p' s) pre" and b: "p s"
    from a b type_loop_first [of s pre p t post] have "type_loop typePatterns s = Some t"
      by (simp add: eq)
    then show "extractPostType s = t" by (simp add: extractPostType_def)
  qed
  show "list_all (\<lambda>(t, p). \<not> p s) typePatterns \<longrightarrow> extractPostType s = ''post''"
    by (simp add: extractPostType_def type_loop_none)
  show "extractPostType s \<in> set [''photo'', ''status'', ''shared'', ''video'', ''link'', ''group'', ''page'', ''post'']"
    by (simp add: extractPostType_chain)
  show "shared_re s \<and> video_re s \<and> \<not> photo_re s \<and> \<not> status_re s \<longrightarrow> extractPostType s = ''shared''"
    by (simp add: extractPostType_chain)
  show "search_lit True (lit ''shared a video'') s \<and> \<not> photo_re s \<and> \<not> status_re s
          \<longrightarrow> extractPostType s = ''shared''"
    by (simp add: extractPostType_chain shared_re_def)
qed

text \<open>The theorem at the subject \<open>Jane shared a video\<close>.\<close>

theorem extractPostType_first_match_witness:
  "shared_re (lit ''Jane shared a video'') \<and> video_re (lit ''Jane shared a video'')
   \<and> \<not> photo_re (lit ''Jane shared a video'') \<and> \<not> status_re (lit ''Jane shared a video'')
   \<and> extractPostType (lit ''Jane shared a video'') = ''shared''
   \<and> list_all (\<lambda>(t, p). \<not> p (lit ''Your weekly digest'')) typePatterns
   \<and> extractPostType (lit ''Your weekly digest'') = ''post''"
proof -
  have h: "shared_re (lit ''Jane shared a video'') \<and> video_re (lit ''Jane shared a video'')
     \<and> \<not> photo_re (lit ''Jane shared a video'') \<and> \<not> status_re (lit ''Jane shared a video'')"
    by (simp add: re_defs ev)
  have split: "typePatterns = [(''photo'', photo_re), (''status'', status_re)]
      @ (''shared'', shared_re) # [(''video'', video_re), (''link'', link_re),
           (''group'', group_re), (''page'', page_re)]"
    by (simp add: typePatterns_def)
  have pre: "list_all (\<lambda>(t', p'). \<not> p' (lit ''Jane shared a video''))
      [(''photo'', photo_re), (''status'', status_re)]"
    using h by simp
  have first: "extractPostType (lit ''Jane shared a video'') = ''shared''"
    using extractPostType_first_match [of "lit ''Jane shared a video''"] split pre h by blast
  have none: "list_all (\<lambda>(t, p). \<not> p (lit ''Your weekly digest'')) typePatterns"
    by (simp add: typePatterns_def re_defs ev)
  have "extractPostType (lit ''Your weekly digest'') = ''post''"
    using extractPostType_first_match [of "lit ''Your weekly digest''"] none by blast
  with h first none show ?thesis by blast
qed

text \<open>
  A subject that contains \<open>shared a video\<close> and matches both the shared and the video
  pattern, yet is classified \<open>''photo''\<close>: \<open>shared .*photo\<close> matches it first.
\<close>

theorem shared_video_not_always_shared:
  "shared_re (lit ''Jane shared a video of her photo'')
   \<and> video_re (lit ''Jane shared a video of her photo'')
   \<and> search_lit True (lit ''shared a video'') (lit ''Jane shared a video of her photo'')
   \<and> extractPostType (lit ''Jane shared a video of her photo'') = ''photo''"
  by (simp add: extractPostType_chain re_defs ev)

section \<open>The timestamp\<close>

text \<open>
  Claim C8. \<open>parseDate\<close> never fails: a parsable string gives its instant rendered by
  \<open>toISOString\<close>, an unparsable one gives the current time rendered the same way.
\<close>

theorem parseDate_never_fails:
  "(\<exists>r. parseDate e s = Inr r)
   \<and> (\<forall>t. time_value e s = Some t \<longrightarrow> parseDate e s = Inr (iso e t))
   \<and> (time_value e s = None \<longrightarrow> parseDate e s = Inr (iso e (now e)))"
  by (cases "time_value e s") (simp_all add: parseDate_def toISOString_def)

text \<open>The theorem in \<open>clock_env\<close>: once on \<open>0\<close>, once on \<open>soon\<close>.\<close>

theorem parseDate_never_fails_witness:
  "parseDate clock_env (lit ''0'') = Inr (lit ''1970-01-01T00:00:00.000Z'')
   \<and> parseDate clock_env (lit ''soon'') = Inr (lit ''1970-01-02T00:00:00.000Z'')"
proof -
  have a: "time_value clock_env (lit ''0'') = Some 0"
    and b: "time_value clock_env (lit ''soon'') = None"
    by (simp_all add: clock_env_def lit_def)
  have c: "iso clock_env 0 = lit ''1970-01-01T00:00:00.000Z''"
    and d: "iso clock_env (now clock_env) = lit ''1970-01-02T00:00:00.000Z''"
    by (simp_all add: clock_env_def)
  from parseDate_never_fails [of clock_env "lit ''0''"] a c
    parseDate_never_fails [of clock_env "lit ''soon''"] b d
  show ?thesis by simp
qed

section \<open>The media harvester\<close>

lemma each_img_filter:
  "each_img acc es =
     acc @ map (\<lambda>(src, a). \<lparr>url = the src, alt = (case a of Some x \<Rightarrow> x | None \<Rightarrow> [])\<rparr>)
            (filter (\<lambda>(src, a). case src of
                        None \<Rightarrow> False
                      | Some u \<Rightarrow> u \<noteq> [] \<and> \<not> search_lit False (lit ''facebook.com/tr/'') u
                                  \<and> \<not> search_lit False (lit ''pixel'') u) es)"
  by (induction acc es rule: each_img.induct) (auto split: option.splits)

text \<open>
  Claim C9, amended. \<open>extractImages\<close> returns, in the order of the document and with no
  deduplication, one pair for every image whose \<open>src\<close> is present, not empty and contains
  neither \<open>facebook.com/tr/\<close> nor \<open>pixel\<close>; the pair holds that \<open>src\<close> and the \<open>alt\<close>
  attribute, the empty string when \<open>alt\<close> is missing. Every other image is left out.
\<close>

theorem extractImages_filter:
  "extractImages d =
     map (\<lambda>(src, a). \<lparr>url = the src, alt = (case a of Some x \<Rightarrow> x | None \<Rightarrow> [])\<rparr>)
       (filter (\<lambda>(src, a). case src of
                   None \<Rightarrow> False
                 | Some u \<Rightarrow> u \<noteq> [] \<and> \<not> search_lit False (lit ''facebook.com/tr/'') u
                             \<and> \<not> search_lit False (lit ''pixel'') u) (dom_img d))"
  by (simp add: extractImages_def each_img_filter)

text \<open>
  Two images whose source holds no tracking marker, one with an empty \<open>src\<close> and one with
  none: neither is preserved.
\<close>

theorem image_without_source_dropped:
  "\<not> search_lit False (lit ''facebook.com/tr/'') [] \<and> \<not> search_lit False (lit ''pixel'') []
   \<and> extractImages \<lparr>dom_select = (\<lambda>sel. []), dom_text = [],
         dom_img = [(Some [], Some (lit ''logo'')), (None, Some (lit ''banner''))], dom_a = []\<rparr> = []"
  by (simp add: extractImages_def lit_def)

section \<open>The importance score\<close>

lemma parser_score:
  "content p = Some c \<Longrightarrow>
     calculateImportance p =
       Inr ((if length c > 300 then 5 else if length c > 100 then 2 else 0)
            + (if postType p = ''photo'' \<or> postType p = ''video'' then 2
               else if postType p = ''shared'' then 1 else 0)
            + (if images p = [] then 0 else 2)
            + (if links p = [] then 0 else 1))"
  by (simp add: calculateImportance_def Let_def)

lemma generator_score:
  "content p = Some c \<Longrightarrow>
     BlogGenerator_calculateImportance p =
       Inr (spec_importance 1 2 3 typeScore (length c) (postType p)
              (length (images p)) (length (links p)))"
  by (simp add: BlogGenerator_calculateImportance_def spec_importance_def Let_def min_def)

lemma typeScore_ge_1: "1 \<le> typeScore t"
  by (simp add: typeScore_def typeScores_def)

text \<open>
  Claim C3, amended. \<open>FacebookParser.calculateImportance\<close> adds 2 for a content longer
  than 100 characters and 3 more for one longer than 300, 2 for the category photo or
  video and 1 for shared, 2 when there is an image and 1 when there is a link; it counts
  neither images nor links, has no bucket at 500 and no clamp. The formula of the
  specification, with the buckets 1, 2, 3 and the table \<open>typeScore\<close>, is what
  \<open>BlogGenerator.calculateImportance\<close> computes for the categories \<open>extractPostType\<close>
  returns.
\<close>

theorem calculateImportance_formula:
  "content p = Some c \<Longrightarrow>
     calculateImportance p =
       Inr ((if length c > 300 then 5 else if length c > 100 then 2 else 0)
            + (if postType p = ''photo'' \<or> postType p = ''video'' then 2
               else if postType p = ''shared'' then 1 else 0)
            + (if images p = [] then 0 else 2)
            + (if links p = [] then 0 else 1))
     \<and> (postType p \<in> set postTypes \<longrightarrow>
          BlogGenerator_calculateImportance p =
            Inr (spec_importance 1 2 3 typeScore (length c) (postType p)
                   (length (images p)) (length (links p))))"
  by (simp add: parser_score generator_score)

text \<open>The theorem at a photo post of 400 characters with three images.\<close>

theorem calculateImportance_formula_witness:
  "calculateImportance (sample_post 400 ''photo'' 3 0) = Inr 9
   \<and> BlogGenerator_calculateImportance (sample_post 400 ''photo'' 3 0) = Inr 8"
proof -
  have c: "content (sample_post 400 ''photo'' 3 0) = Some (replicate 400 97)"
    by (simp add: sample_post_def)
  have t: "postType (sample_post 400 ''photo'' 3 0) \<in> set postTypes"
    by (simp add: sample_post_def postTypes_def)
  from calculateImportance_formula [OF c] t show ?thesis
    by (simp add: sample_post_def spec_importance_def typeScore_def typeScores_def)
qed

text \<open>
  Two records that differ in the number of images only, one image against two, get the
  same score 2, which the formula of the specification gives for no choice of bucket
  values and weights.
\<close>

theorem calculateImportance_not_spec_formula:
  "calculateImportance (sample_post 0 ''post'' 1 0) = Inr 2
   \<and> calculateImportance (sample_post 0 ''post'' 2 0) = Inr 2
   \<and> \<not> (\<exists>b1 b2 b3 w. spec_importance b1 b2 b3 w 0 ''post'' 1 0 = 2
                     \<and> spec_importance b1 b2 b3 w 0 ''post'' 2 0 = 2)"
  by (auto simp: calculateImportance_def sample_post_def spec_importance_def min_def
        split: if_splits)

text \<open>
  Claim C4. Whatever the content length, the category and the numbers of images and
  links, the score \<open>FacebookParser.calculateImportance\<close> gives a record lies between 0 and
  10; so does the score of \<open>BlogGenerator\<close> for the categories \<open>extractPostType\<close>
  returns.
\<close>

theorem calculateImportance_range:
  "content p = Some c \<Longrightarrow>
     (\<exists>n. calculateImportance p = Inr n \<and> 0 \<le> n \<and> n \<le> 10)
     \<and> (postType p \<in> set postTypes \<longrightarrow>
          (\<exists>n. BlogGenerator_calculateImportance p = Inr n \<and> 0 \<le> n \<and> n \<le> 10))"
proof (intro conjI impI)
  assume c: "content p = Some c"
  define a :: rat where "a = (if length c > 300 then 5 else if length c > 100 then 2 else 0)"
  define b :: rat where "b = (if postType p = ''photo'' \<or> postType p = ''video'' then 2
               else if postType p = ''shared'' then 1 else 0)"
  define i :: rat where "i = (if images p = [] then 0 else 2)"
  define l :: rat where "l = (if links p = [] then 0 else 1)"
  have "0 \<le> a \<and> a \<le> 5" "0 \<le> b \<and> b \<le> 2" "0 \<le> i \<and> i \<le> 2" "0 \<le> l \<and> l \<le> 1"
    by (simp_all add: a_def b_def i_def l_def)
  then have "0 \<le> a + b + i + l \<and> a + b + i + l \<le> 10" by linarith
  moreover have "calculateImportance p = Inr (a + b + i + l)"
    using parser_score [OF c] by (simp only: a_def b_def i_def l_def)
  ultimately show "\<exists>n. calculateImportance p = Inr n \<and> 0 \<le> n \<and> n \<le> 10" by blast
next
  assume c: "content p = Some c"
  define x :: rat where "x = (if length c > 100 then 1 else 0) + (if length c > 300 then 2 else 0)
        + (if length c > 500 then 3 else 0) + typeScore (postType p)
        + of_nat (length (images p)) + of_nat (length (links p)) / 2"
  have "0 \<le> x"
    using typeScore_ge_1 [of "postType p"] by (simp add: x_def add_nonneg_nonneg)
  then have "0 \<le> min 10 x \<and> min 10 x \<le> 10" by simp
  moreover have "BlogGenerator_calculateImportance p = Inr (min 10 x)"
    using generator_score [OF c] by (simp only: spec_importance_def x_def)
  ultimately show "\<exists>n. BlogGenerator_calculateImportance p = Inr n \<and> 0 \<le> n \<and> n \<le> 10"
    by blast
qed

text \<open>The theorem at a photo post of 2000 characters with ten images and ten links.\<close>

theorem calculateImportance_range_witness:
  "content (sample_post 2000 ''photo'' 10 10) = Some (replicate 2000 97)
   \<and> calculateImportance (sample_post 2000 ''photo'' 10 10) = Inr 10
   \<and> BlogGenerator_calculateImportance (sample_post 2000 ''photo'' 10 10) = Inr 10"
proof -
  have c: "content (sample_post 2000 ''photo'' 10 10) = Some (replicate 2000 97)"
    by (simp add: sample_post_def)
  have v: "calculateImportance (sample_post 2000 ''photo'' 10 10) = Inr 10"
    "BlogGenerator_calculateImportance (sample_post 2000 ''photo'' 10 10) = Inr 10"
    by (simp_all add: calculateImportance_def BlogGenerator_calculateImportance_def
          sample_post_def typeScore_def typeScores_def)
  have t: "postType (sample_post 2000 ''photo'' 10 10) \<in> set postTypes"
    by (simp add: sample_post_def postTypes_def)
  from calculateImportance_range [OF c] t
  have "(\<exists>n. calculateImportance (sample_post 2000 ''photo'' 10 10) = Inr n \<and> 0 \<le> n \<and> n \<le> 10)
     \<and> (\<exists>n. BlogGenerator_calculateImportance (sample_post 2000 ''photo'' 10 10) = Inr n
            \<and> 0 \<le> n \<and> n \<le> 10)"
    by blast
  with c v show ?thesis by simp
qed

section \<open>The extraction pipeline\<close>

text \<open>
  Claim C1. When the author or the content resolves to nothing (\<open>null\<close> or the empty
  string), \<open>extractPostData\<close> returns \<open>null\<close>; hence every record it returns has an
  author and a content that are not empty.
\<close>

theorem extractPostData_absent_or_complete:
  "(falsy (extractAuthor (email_subject m) (load e (email_body m)))
      \<or> falsy (extractContent (load e (email_body m))) \<longrightarrow> extractPostData e m = None)
   \<and> (\<forall>p. extractPostData e m = Some p \<longrightarrow>
          (\<exists>a c. author p = Some a \<and> a \<noteq> [] \<and> content p = Some c \<and> c \<noteq> []))"
  by (cases "parseDate e (email_date m)")
     (auto simp: extractPostData_def Let_def falsy_def)

lemma jane_author: "extractAuthor (email_subject jane_mail) novel_dom = Some (lit ''Jane Doe'')"
  by (simp add: extractAuthor_def authorPatterns_def jane_mail_def trim_def ev)

lemma novel_content:
  "extractContent novel_dom = Some (lit ''Just finished reading this amazing novel!'')"
  by (simp add: extractContent_def selectors_def novel_dom_def strip_prefixes_def
        strip_prefix_def cleanContent_def trim_def ev)


lemma digest_content: "extractContent (load clock_env (email_body digest_mail)) = None"
  by (simp add: extractContent_def selectors_def clock_env_def digest_mail_def fallback_def
        isPostContent_def trim_def ev)

text \<open>
  The theorem at the group notification, which yields a record, and at the digest, whose
  content is absent.
\<close>

theorem extractPostData_absent_or_complete_witness:
  "(\<exists>p a c. extractPostData novel_env jane_mail = Some p
        \<and> author p = Some a \<and> a \<noteq> [] \<and> content p = Some c \<and> c \<noteq> []
        \<and> a = lit ''Jane Doe'' \<and> c = lit ''Just finished reading this amazing novel!''
        \<and> postType p = ''group'')
   \<and> falsy (extractContent (load clock_env (email_body digest_mail)))
   \<and> extractPostData clock_env digest_mail = None"
proof -
  have l: "load novel_env (email_body jane_mail) = novel_dom"
    by (simp add: novel_env_def)
  have t: "extractPostType (email_subject jane_mail) = ''group''"
    by (simp add: extractPostType_chain jane_mail_def re_defs ev)
  have d: "parseDate novel_env (email_date jane_mail) = Inr (lit ''1970-01-01T00:00:00.000Z'')"
    by (simp add: parseDate_def toISOString_def novel_env_def clock_env_def jane_mail_def)
  have "\<exists>p. extractPostData novel_env jane_mail = Some p
        \<and> author p = Some (lit ''Jane Doe'')
        \<and> content p = Some (lit ''Just finished reading this amazing novel!'')
        \<and> postType p = ''group''"
    by (simp add: extractPostData_def l t d jane_author novel_content falsy_def lit_def)
  then obtain p where p: "extractPostData novel_env jane_mail = Some p"
    "author p = Some (lit ''Jane Doe'')"
    "content p = Some (lit ''Just finished reading this amazing novel!'')"
    "postType p = ''group''"
    by blast
  from extractPostData_absent_or_complete [of jane_mail novel_env] p(1)
  obtain a c where "author p = Some a" "a \<noteq> []" "content p = Some c" "c \<noteq> []"
    by blast
  with p have some: "\<exists>p a c. extractPostData novel_env jane_mail = Some p
        \<and> author p = Some a \<and> a \<noteq> [] \<and> content p = Some c \<and> c \<noteq> []
        \<and> a = lit ''Jane Doe'' \<and> c = lit ''Just finished reading this amazing novel!''
        \<and> postType p = ''group''"
    by auto
  have f: "falsy (extractContent (load clock_env (email_body digest_mail)))"
    by (simp add: digest_content falsy_def)
  have "extractPostData clock_env digest_mail = None"
    using extractPostData_absent_or_complete [of digest_mail clock_env] f by blast
  with some f show ?thesis by blast
qed

section \<open>The selector cascade\<close>

lemma selector_loop_skip:
  "dom_select d sel \<noteq> [] \<Longrightarrow> length (strip_prefixes (trim (hd (dom_select d sel)))) \<le> 10
   \<Longrightarrow> selector_loop d (sel # rest) = selector_loop d rest"
  by (simp add: Let_def)

lemma selector_loop_none:
  "list_all (\<lambda>sel. dom_select d sel = []
                \<or> length (strip_prefixes (trim (hd (dom_select d sel)))) \<le> 10) sels
   \<Longrightarrow> selector_loop d sels = None"
  by (induction sels) (auto simp: Let_def)

lemma selector_loop_unmatch:
  "dom_select d sel \<noteq> [] \<Longrightarrow> length (strip_prefixes (trim (hd (dom_select d sel)))) \<le> 10
   \<Longrightarrow> selector_loop (d\<lparr>dom_select := (dom_select d)(sel := [])\<rparr>) sels = selector_loop d sels"
  by (induction sels) (auto simp: Let_def)

lemma selector_loop_accepts:
  "selector_loop d sels = Some r \<Longrightarrow> \<exists>c. 10 < length c \<and> r = cleanContent c"
  by (induction sels) (auto simp: Let_def split: if_splits)

lemma fallback_select: "fallback (d\<lparr>dom_select := f\<rparr>) = fallback d"
  by (simp add: fallback_def)

text \<open>
  Claim C5. When a selector matches and the text of its first element, trimmed and with
  the prefixes stripped, has at most 10 characters, the loop goes on with the next
  selector: the document is treated as if that selector matched nothing. When this
  happens for every selector that matches, the result is the one of the fallback scan.
\<close>

theorem short_match_rejected:
  "(dom_select d sel \<noteq> [] \<and> length (strip_prefixes (trim (hd (dom_select d sel)))) \<le> 10 \<longrightarrow>
      selector_loop d (sel # rest) = selector_loop d rest
      \<and> extractContent d = extractContent (d\<lparr>dom_select := (dom_select d)(sel := [])\<rparr>))
   \<and> (list_all (\<lambda>sel. dom_select d sel = []
                  \<or> length (strip_prefixes (trim (hd (dom_select d sel)))) \<le> 10) selectors
        \<longrightarrow> extractContent d = fallback d)"
proof (intro conjI impI)
  assume a: "dom_select d sel \<noteq> [] \<and> length (strip_prefixes (trim (hd (dom_select d sel)))) \<le> 10"
  then show "selector_loop d (sel # rest) = selector_loop d rest"
    by (simp add: selector_loop_skip)
  from a show "extractContent d = extractContent (d\<lparr>dom_select := (dom_select d)(sel := [])\<rparr>)"
    by (simp add: extractContent_def selector_loop_unmatch fallback_select cong: option.case_cong)
next
  assume "list_all (\<lambda>sel. dom_select d sel = []
                  \<or> length (strip_prefixes (trim (hd (dom_select d sel)))) \<le> 10) selectors"
  then have "selector_loop d selectors = None" by (rule selector_loop_none)
  then show "extractContent d = fallback d" by (simp add: extractContent_def)
qed

text \<open>
  The theorem at \<open>short_dom\<close>, where the third selector takes over, and at \<open>tiny_dom\<close>,
  where the fallback does.
\<close>

theorem short_match_rejected_witness:
  \<open>dom_select short_dom ''[data-testid="post_message"]'' \<noteq> []
   \<and> length (strip_prefixes (trim (hd (dom_select short_dom ''[data-testid="post_message"]'')))) \<le> 10
   \<and> extractContent short_dom = Some (lit ''A longer message body here'')
   \<and> extractContent tiny_dom = fallback tiny_dom\<close>
proof -
  have a: \<open>dom_select short_dom ''[data-testid="post_message"]'' \<noteq> []
     \<and> length (strip_prefixes (trim (hd (dom_select short_dom ''[data-testid="post_message"]'')))) \<le> 10\<close>
    by (simp add: short_dom_def strip_prefixes_def strip_prefix_def trim_def ev)
  have b: \<open>extractContent (short_dom\<lparr>dom_select :=
              (dom_select short_dom)(''[data-testid="post_message"]'' := [])\<rparr>)
           = Some (lit ''A longer message body here'')\<close>
    by (simp add: extractContent_def selectors_def short_dom_def strip_prefixes_def
          strip_prefix_def cleanContent_def trim_def ev)
  have c: "list_all (\<lambda>sel. dom_select tiny_dom sel = []
                \<or> length (strip_prefixes (trim (hd (dom_select tiny_dom sel)))) \<le> 10) selectors"
    by (simp add: selectors_def tiny_dom_def strip_prefixes_def strip_prefix_def trim_def ev)
  from short_match_rejected [of short_dom \<open>''[data-testid="post_message"]''\<close> "[]"] a b
    short_match_rejected [of tiny_dom "[]" "[]"] c
  show ?thesis by simp
qed

section \<open>The heuristic fallback\<close>

lemma absorb_takeWhile:
  "absorb n acc ls =
     acc @ concat (map (\<lambda>x. 10 # x)
       (takeWhile (\<lambda>x. isPostContent x \<and> \<not> isSystemMessage x) (take n (map trim ls))))"
  by (induction n acc ls rule: absorb.induct) (simp_all add: Let_def)

lemma scan_lines_skip:
  "list_all (\<lambda>x. \<not> isPostContent (trim x)) pre \<Longrightarrow> scan_lines (pre @ ls) = scan_lines ls"
  by (induction pre) (simp_all add: Let_def)

lemma scan_lines_accepts:
  "scan_lines ls = Some r \<Longrightarrow> \<exists>c. 20 < length c \<and> r = cleanContent c"
  by (induction ls) (auto simp: Let_def split: if_splits)

lemma scan_lines_start:
  assumes "list_all (\<lambda>x. \<not> isPostContent (trim x)) pre" and "isPostContent (trim l)"
  shows "scan_lines (pre @ l # rest) =
     (let run = takeWhile (\<lambda>x. isPostContent x \<and> \<not> isSystemMessage x) (take 4 (map trim rest));
          joined = trim l @ concat (map (\<lambda>x. 10 # x) run)
      in if length joined > 20 then Some (cleanContent joined) else scan_lines rest)"
  using assms by (simp add: scan_lines_skip absorb_takeWhile Let_def)

text \<open>
  Claim C6, amended. Let the first non-blank line that is plausible post content be
  \<open>l\<close>. The lines absorbed after it are the longest run, among the next 4 lines, of lines
  that are plausible post content and no system message. The lines joined by line feeds
  are accepted, sanitized, when they have more than 20 characters; otherwise the scan
  goes on after \<open>l\<close>. In particular a body of 2 boilerplate lines, 3 meaningful lines and
  1 footer line that fails one of the two tests yields the sanitized concatenation of the
  3 meaningful lines, provided that concatenation has more than 20 characters and no
  selector gave a result.
\<close>

theorem fallback_run:
  "(filter (\<lambda>line. length (trim line) > 0) (split_nl (dom_text d)) = pre @ l # rest
      \<and> list_all (\<lambda>x. \<not> isPostContent (trim x)) pre \<and> isPostContent (trim l) \<longrightarrow>
      (let run = takeWhile (\<lambda>x. isPostContent x \<and> \<not> isSystemMessage x)
                   (take 4 (map trim rest));
           joined = trim l @ concat (map (\<lambda>x. 10 # x) run)
       in fallback d =
            (if length joined > 20 then Some (cleanContent joined) else scan_lines rest)))
   \<and> (selector_loop d selectors = None
      \<and> filter (\<lambda>line. length (trim line) > 0) (split_nl (dom_text d))
          = [b1, b2, m1, m2, m3, f]
      \<and> \<not> isPostContent (trim b1) \<and> \<not> isPostContent (trim b2)
      \<and> isPostContent (trim m1)
      \<and> isPostContent (trim m2) \<and> \<not> isSystemMessage (trim m2)
      \<and> isPostContent (trim m3) \<and> \<not> isSystemMessage (trim m3)
      \<and> \<not> (isPostContent (trim f) \<and> \<not> isSystemMessage (trim f))
      \<and> length (trim m1 @ [10] @ trim m2 @ [10] @ trim m3) > 20 \<longrightarrow>
      extractContent d = Some (cleanContent (trim m1 @ [10] @ trim m2 @ [10] @ trim m3)))"
proof (intro conjI impI)
  assume a: "filter (\<lambda>line. length (trim line) > 0) (split_nl (dom_text d)) = pre @ l # rest
      \<and> list_all (\<lambda>x. \<not> isPostContent (trim x)) pre \<and> isPostContent (trim l)"
  then have "fallback d = scan_lines (pre @ l # rest)" by (simp add: fallback_def)
  with a show "let run = takeWhile (\<lambda>x. isPostContent x \<and> \<not> isSystemMessage x)
                   (take 4 (map trim rest));
           joined = trim l @ concat (map (\<lambda>x. 10 # x) run)
       in fallback d =
            (if length joined > 20 then Some (cleanContent joined) else scan_lines rest)"
    by (simp add: scan_lines_start Let_def)
next
  assume a: "selector_loop d selectors = None
      \<and> filter (\<lambda>line. length (trim line) > 0) (split_nl (dom_text d))
          = [b1, b2, m1, m2, m3, f]
      \<and> \<not> isPostContent (trim b1) \<and> \<not> isPostContent (trim b2)
      \<and> isPostContent (trim m1)
      \<and> isPostContent (trim m2) \<and> \<not> isSystemMessage (trim m2)
      \<and> isPostContent (trim m3) \<and> \<not> isSystemMessage (trim m3)
      \<and> \<not> (isPostContent (trim f) \<and> \<not> isSystemMessage (trim f))
      \<and> length (trim m1 @ [10] @ trim m2 @ [10] @ trim m3) > 20"
  then have "extractContent d = scan_lines ([b1, b2] @ m1 # [m2, m3, f])"
    by (simp add: extractContent_def fallback_def)
  also have "\<dots> = Some (cleanContent (trim m1 @ [10] @ trim m2 @ [10] @ trim m3))"
    using a by (subst scan_lines_start) (auto simp: Let_def)
  finally show "extractContent d = Some (cleanContent (trim m1 @ [10] @ trim m2 @ [10] @ trim m3))" .
qed

lemma club_lines:
  "filter (\<lambda>line. length (trim line) > 0) (split_nl (dom_text (text_dom club_text)))
   = [lit ''Facebook'', lit ''Privacy settings'', lit ''  Hello everyone!'' @ [13],
      lit ''We met at the lake.'', lit ''See you soon.'', lit ''To unsubscribe click here'']"
  by (simp add: text_dom_def club_text_def trim_def ev)

text \<open>
  The theorem at \<open>club_text\<close>.
\<close>

theorem fallback_run_witness:
  "fallback (text_dom club_text)
     = Some (lit ''Hello everyone! We met at the lake. See you soon.'')
   \<and> extractContent (text_dom club_text)
     = Some (lit ''Hello everyone! We met at the lake. See you soon.'')"
proof -
  have s: "selector_loop (text_dom club_text) selectors = None"
    by (simp add: selectors_def text_dom_def)
  have t: "trim (lit ''Facebook'') = lit ''Facebook''"
    "trim (lit ''Privacy settings'') = lit ''Privacy settings''"
    "trim (lit ''  Hello everyone!'' @ [13]) = lit ''Hello everyone!''"
    "trim (lit ''We met at the lake.'') = lit ''We met at the lake.''"
    "trim (lit ''See you soon.'') = lit ''See you soon.''"
    "trim (lit ''To unsubscribe click here'') = lit ''To unsubscribe click here''"
    by (simp_all add: trim_def ev)
  have b: "\<not> isPostContent (lit ''Facebook'')" "\<not> isPostContent (lit ''Privacy settings'')"
    by (simp_all add: isPostContent_def ev)
  have m: "isPostContent (lit ''Hello everyone!'')"
    "isPostContent (lit ''We met at the lake.'')" "isPostContent (lit ''See you soon.'')"
    "isPostContent (lit ''To unsubscribe click here'')"
    by (simp_all add: isPostContent_def ev)
  have n: "\<not> isSystemMessage (lit ''We met at the lake.'')"
    "\<not> isSystemMessage (lit ''See you soon.'')"
    "isSystemMessage (lit ''To unsubscribe click here'')"
    by (simp_all add: isSystemMessage_def ev)
  have len: "length (lit ''Hello everyone!'' @ [10] @ lit ''We met at the lake.'' @ [10]
                @ lit ''See you soon.'') > 20"
    by (simp add: lit_def)
  have c: "cleanContent (lit ''Hello everyone!'' @ [10] @ lit ''We met at the lake.'' @ [10]
                @ lit ''See you soon.'')
           = lit ''Hello everyone! We met at the lake. See you soon.''"
    by (simp add: cleanContent_def trim_def ev)
  have lines: "filter (\<lambda>line. length (trim line) > 0) (split_nl (dom_text (text_dom club_text)))
     = [lit ''Facebook'', lit ''Privacy settings''] @ (lit ''  Hello everyone!'' @ [13])
       # [lit ''We met at the lake.'', lit ''See you soon.'', lit ''To unsubscribe click here'']"
    using club_lines by simp
  have pre: "list_all (\<lambda>x. \<not> isPostContent (trim x)) [lit ''Facebook'', lit ''Privacy settings'']"
    by (simp add: t b)
  have run: "takeWhile (\<lambda>x. isPostContent x \<and> \<not> isSystemMessage x)
       (take 4 (map trim [lit ''We met at the lake.'', lit ''See you soon.'',
                          lit ''To unsubscribe click here'']))
     = [lit ''We met at the lake.'', lit ''See you soon.'']"
    by (simp add: t m n)
  from fallback_run [of "text_dom club_text" "[lit ''Facebook'', lit ''Privacy settings'']"
      "lit ''  Hello everyone!'' @ [13]"
      "[lit ''We met at the lake.'', lit ''See you soon.'', lit ''To unsubscribe click here'']"]
    lines pre t(3) m(1)
  have "let run = takeWhile (\<lambda>x. isPostContent x \<and> \<not> isSystemMessage x)
                   (take 4 (map trim [lit ''We met at the lake.'', lit ''See you soon.'',
                          lit ''To unsubscribe click here'']));
           joined = trim (lit ''  Hello everyone!'' @ [13]) @ concat (map (\<lambda>x. 10 # x) run)
       in fallback (text_dom club_text) =
            (if length joined > 20 then Some (cleanContent joined)
             else scan_lines [lit ''We met at the lake.'', lit ''See you soon.'',
                          lit ''To unsubscribe click here''])"
    by simp
  then have first: "fallback (text_dom club_text)
     = Some (lit ''Hello everyone! We met at the lake. See you soon.'')"
    using len c by (simp only: run Let_def t(3)) simp
  from fallback_run [of "text_dom club_text" "[]" "[]" "[]" "lit ''Facebook''"
      "lit ''Privacy settings''" "lit ''  Hello everyone!'' @ [13]" "lit ''We met at the lake.''"
      "lit ''See you soon.''" "lit ''To unsubscribe click here''"]
    s club_lines t b m n len c
  have "extractContent (text_dom club_text)
     = Some (lit ''Hello everyone! We met at the lake. See you soon.'')"
    by simp
  with first show ?thesis by simp
qed

text \<open>
  A body of 2 boilerplate lines, 3 meaningful lines of 6 characters and an unsubscribe
  footer: the three lines joined have 20 characters, and the content is absent.
\<close>

theorem three_short_lines_rejected:
  "selector_loop (text_dom terse_text) selectors = None
   \<and> filter (\<lambda>line. length (trim line) > 0) (split_nl (dom_text (text_dom terse_text)))
       = [lit ''Facebook'', lit ''Privacy'', lit ''Hello!'', lit ''World!'', lit ''Great!'',
          lit ''Unsubscribe'']
   \<and> \<not> isPostContent (lit ''Facebook'') \<and> \<not> isPostContent (lit ''Privacy'')
   \<and> isPostContent (lit ''Hello!'') \<and> \<not> isSystemMessage (lit ''Hello!'')
   \<and> isPostContent (lit ''World!'') \<and> \<not> isSystemMessage (lit ''World!'')
   \<and> isPostContent (lit ''Great!'') \<and> \<not> isSystemMessage (lit ''Great!'')
   \<and> isSystemMessage (lit ''Unsubscribe'')
   \<and> extractContent (text_dom terse_text) = None"
  by (simp add: extractContent_def fallback_def selectors_def text_dom_def terse_text_def
        absorb_takeWhile isPostContent_def isSystemMessage_def trim_def ev)

section \<open>Thresholds and sanitization\<close>

lemma spaced_content: "extractContent spaced_dom = Some (lit ''a b'')"
  by (simp add: extractContent_def selectors_def spaced_dom_def strip_prefixes_def
        strip_prefix_def cleanContent_def trim_def ev)

lemma spaced_selector: "selector_loop spaced_dom selectors = Some (lit ''a b'')"
  by (simp add: selectors_def spaced_dom_def strip_prefixes_def
        strip_prefix_def cleanContent_def trim_def ev)

lemma wide_content:
  "extractContent (text_dom (lit ''Hello                world'')) = Some (lit ''Hello world'')"
  by (simp add: extractContent_def fallback_def selectors_def text_dom_def absorb_takeWhile
        isPostContent_def isSystemMessage_def cleanContent_def trim_def ev)

text \<open>
  Claim C10. The thresholds 10 and 20 are tested on the text before it is sanitized: an
  accepted content is the sanitized form of a text longer than the threshold. As the
  sanitizer collapses white space, there is a document whose content, found by a
  selector, has at most 10 characters, and one whose content, found by the fallback, has
  at most 20.
\<close>

theorem thresholds_before_sanitization:
  "(\<forall>d sels r. selector_loop d sels = Some r \<longrightarrow> (\<exists>c. 10 < length c \<and> r = cleanContent c))
   \<and> (\<forall>ls r. scan_lines ls = Some r \<longrightarrow> (\<exists>c. 20 < length c \<and> r = cleanContent c))
   \<and> (\<exists>d r. selector_loop d selectors = Some r \<and> extractContent d = Some r \<and> length r \<le> 10)
   \<and> (\<exists>d r. selector_loop d selectors = None \<and> extractContent d = Some r \<and> length r \<le> 20)"
proof (intro conjI)
  show "\<forall>d sels r. selector_loop d sels = Some r \<longrightarrow> (\<exists>c. 10 < length c \<and> r = cleanContent c)"
    using selector_loop_accepts by blast
  show "\<forall>ls r. scan_lines ls = Some r \<longrightarrow> (\<exists>c. 20 < length c \<and> r = cleanContent c)"
    using scan_lines_accepts by blast
  have "length (lit ''a b'') \<le> 10" by (simp add: lit_def)
  with spaced_selector spaced_content
  show "\<exists>d r. selector_loop d selectors = Some r \<and> extractContent d = Some r \<and> length r \<le> 10"
    by blast
  have "selector_loop (text_dom (lit ''Hello                world'')) selectors = None"
    by (simp add: selectors_def text_dom_def)
  moreover have "length (lit ''Hello world'') \<le> 20" by (simp add: lit_def)
  ultimately
  show "\<exists>d r. selector_loop d selectors = None \<and> extractContent d = Some r \<and> length r \<le> 20"
    using wide_content by blast
qed

text \<open>
  The theorem at \<open>spaced_dom\<close>: the content \<open>a b\<close> of 3 characters comes from a text
  longer than 10.
\<close>

theorem thresholds_before_sanitization_witness:
  "selector_loop spaced_dom selectors = Some (lit ''a b'')
   \<and> (\<exists>c. 10 < length c \<and> lit ''a b'' = cleanContent c)
   \<and> length (lit ''a b'') = 3
   \<and> scan_lines [lit ''Hello                world''] = Some (lit ''Hello world'')
   \<and> (\<exists>c. 20 < length c \<and> lit ''Hello world'' = cleanContent c)
   \<and> length (lit ''Hello world'') = 11"
proof -
  from thresholds_before_sanitization spaced_selector
  have a: "\<exists>c. 10 < length c \<and> lit ''a b'' = cleanContent c" by blast
  have w: "scan_lines [lit ''Hello                world''] = Some (lit ''Hello world'')"
    by (simp add: absorb_takeWhile isPostContent_def isSystemMessage_def cleanContent_def
          trim_def ev)
  with thresholds_before_sanitization
  have b: "\<exists>c. 20 < length c \<and> lit ''Hello world'' = cleanContent c" by blast
  from a b w spaced_selector show ?thesis by (simp add: lit_def)
qed

end
